theory Spec2Isabelle
  imports Complex_Main "HOL-Library.Sublist"
begin

section \<open>The icon generator \<open>scripts/make_apple_touch_icon.py\<close>\<close>

text \<open>
  Python floats are modelled as real numbers: every arithmetic operation is the exact
  one, and \<open>math.cos\<close>, \<open>math.sin\<close> and \<open>math.pi\<close> are the real functions and
  constant. Rounding error of IEEE doubles is outside this model.
\<close>

subsection \<open>Configuration constants\<close>

definition BG_COLOR :: string where
  "BG_COLOR = ''#ffdab9''"

definition OUTPUT_PATH :: string where
  "OUTPUT_PATH = ''public/apple-touch-icon.png''"

definition SIZE :: int where
  "SIZE = 180"

subsection \<open>Polar-to-Cartesian conversion\<close>

definition polar :: "real \<Rightarrow> real \<Rightarrow> real \<Rightarrow> real \<Rightarrow> real \<times> real" where
  "polar cx cy r angle_deg =
     (let rad = (angle_deg - 90) * pi / 180
      in (cx + r * cos rad, cy + r * sin rad))"

text \<open>The Euclidean distance between two points of the plane.\<close>

definition euclid_dist :: "real \<times> real \<Rightarrow> real \<times> real \<Rightarrow> real" where
  "euclid_dist p q = sqrt ((fst p - fst q)\<^sup>2 + (snd p - snd q)\<^sup>2)"

subsection \<open>Python primitives used by the colour conversion\<close>

text \<open>
  The float remainder \<open>x % y\<close> has the sign of the divisor: \<open>x - y * floor (x / y)\<close>.
  The script only ever divides by the literal 2.
\<close>

definition py_fmod :: "real \<Rightarrow> real \<Rightarrow> real" where
  "py_fmod x y = x - y * of_int \<lfloor>x / y\<rfloor>"

text \<open>\<open>round(v)\<close> with one argument returns an integer and rounds halves to even.\<close>

definition py_round :: "real \<Rightarrow> int" where
  "py_round v =
     (let f = \<lfloor>v\<rfloor>; d = v - of_int f
      in if d < 1 / 2 then f
         else if 1 / 2 < d then f + 1
         else if even f then f else f + 1)"

definition hex_digit :: "nat \<Rightarrow> char" where
  "hex_digit d = ''0123456789abcdef'' ! d"

fun hex_nat :: "nat \<Rightarrow> string" where
  "hex_nat n = (if n < 16 then [hex_digit n] else hex_nat (n div 16) @ [hex_digit (n mod 16)])"

declare hex_nat.simps [simp del]

text \<open>
  The format specification \<open>{:02x}\<close>: lowercase hexadecimal, zero-padded to a minimum
  width of 2; the sign of a negative number counts towards the width.
\<close>

definition format_02x :: "int \<Rightarrow> string" where
  "format_02x n =
     (if n < 0 then CHR ''-'' # hex_nat (nat (- n))
      else let ds = hex_nat (nat n) in replicate (2 - length ds) CHR ''0'' @ ds)"

subsection \<open>HSL to hexadecimal colour\<close>

text \<open>The three channels after rounding, in the order red, green, blue.\<close>

definition hsl_channels :: "real \<Rightarrow> real \<Rightarrow> real \<Rightarrow> int \<times> int \<times> int" where
  "hsl_channels h s_pct l_pct =
     (let s = s_pct / 100;
          l = l_pct / 100;
          c = (1 - \<bar>2 * l - 1\<bar>) * s;
          x = c * (1 - \<bar>py_fmod (h / 60) 2 - 1\<bar>);
          m = l - c / 2;
          (r, g, b) =
            (if h < 60 then (c, x, 0)
             else if h < 120 then (x, c, 0)
             else if h < 180 then (0, c, x)
             else if h < 240 then (0, x, c)
             else if h < 300 then (x, 0, c)
             else (c, 0, x))
      in (py_round ((r + m) * 255), py_round ((g + m) * 255), py_round ((b + m) * 255)))"

definition hsl_to_hex :: "real \<Rightarrow> real \<Rightarrow> real \<Rightarrow> string" where
  "hsl_to_hex h s_pct l_pct =
     (case hsl_channels h s_pct l_pct of
        (r, g, b) \<Rightarrow> CHR ''#'' # format_02x r @ format_02x g @ format_02x b)"

text \<open>The pattern \<open>#[0-9a-f]{6}\<close> of the specification, as a predicate on strings.\<close>

definition lower_hex_char :: "char \<Rightarrow> bool" where
  "lower_hex_char c = (c \<in> set ''0123456789abcdef'')"

definition matches_hex_colour :: "string \<Rightarrow> bool" where
  "matches_hex_colour str =
     (case str of
        [] \<Rightarrow> False
      | c # cs \<Rightarrow> c = CHR ''#'' \<and> length cs = 6 \<and> list_all lower_hex_char cs)"

text \<open>An integer that fits one 8-bit colour channel.\<close>

definition is_byte :: "int \<Rightarrow> bool" where
  "is_byte n = (0 \<le> n \<and> n \<le> 255)"

subsection \<open>Number formatting\<close>

text \<open>
  An f-string field \<open>{v}\<close> holding a float is rendered by the language's \<open>str\<close>, which
  is not part of the script. The functions below take it as the parameter \<open>float_str\<close>.
  What the proofs need of it is stated by two predicates: its output is a non-empty
  string over the characters of a float literal (digits, \<open>.\<close>, \<open>e\<close>, signs, \<open>inf\<close>,
  \<open>nan\<close>), and two numbers of the canvas range that print the same are less than one
  unit apart.
\<close>

definition numeric_repr :: "(real \<Rightarrow> string) \<Rightarrow> bool" where
  "numeric_repr float_str =
     (\<forall>v. float_str v \<noteq> [] \<and> set (float_str v) \<subseteq> set ''0123456789.e+-infa'')"

definition separates_canvas :: "(real \<Rightarrow> string) \<Rightarrow> bool" where
  "separates_canvas float_str =
     (\<forall>a b. 0 \<le> a \<and> a \<le> 180 \<and> 0 \<le> b \<and> b \<le> 180 \<and> float_str a = float_str b
        \<longrightarrow> \<bar>a - b\<bar> < 1)"

text \<open>Decimal rendering of an integer, as \<open>str\<close> of an \<open>int\<close> gives it.\<close>

definition dec_digit :: "nat \<Rightarrow> char" where
  "dec_digit d = ''0123456789'' ! d"

fun dec_nat :: "nat \<Rightarrow> string" where
  "dec_nat n = (if n < 10 then [dec_digit n] else dec_nat (n div 10) @ [dec_digit (n mod 10)])"

declare dec_nat.simps [simp del]

definition int_str :: "int \<Rightarrow> string" where
  "int_str n = (if n < 0 then CHR ''-'' # dec_nat (nat (- n)) else dec_nat (nat n))"

text \<open>
  A concrete formatter with one truncated decimal place, \<open>90.0\<close> for 90 and \<open>11.2\<close> for
  56/5. It is one instance of the parameter \<open>float_str\<close>, used for the concrete
  instances of the theorems.
\<close>

definition decimal1_str :: "real \<Rightarrow> string" where
  "decimal1_str v =
     (let t = nat \<lfloor>\<bar>v\<bar> * 10\<rfloor>
      in (if v < 0 then ''-'' else []) @ dec_nat (t div 10) @ CHR ''.'' # [dec_digit (t mod 10)])"

subsection \<open>Petal path\<close>

text \<open>The two control points \<open>c1\<close>, \<open>c2\<close> that \<open>make_petal_path\<close> computes first.\<close>

definition petal_controls :: "real \<Rightarrow> real \<Rightarrow> real \<Rightarrow> real \<Rightarrow> (real \<times> real) \<times> (real \<times> real)" where
  "petal_controls cx cy petal_width angle =
     (polar cx cy petal_width (angle - 20), polar cx cy petal_width (angle + 20))"

definition make_petal_path :: "(real \<Rightarrow> string) \<Rightarrow> real \<Rightarrow> real \<Rightarrow> real \<Rightarrow> real \<Rightarrow> string" where
  "make_petal_path float_str cx cy petal_width angle =
     (case petal_controls cx cy petal_width angle of
        (c1, c2) \<Rightarrow>
          ''M '' @ float_str cx @ '' '' @ float_str cy @ '' '' @
          ''C '' @ float_str (fst c1) @ '' '' @ float_str (snd c1) @ '' '' @
          float_str (fst c2) @ '' '' @ float_str (snd c2) @ '' '' @
          float_str cx @ '' '' @ float_str cy)"

subsection \<open>The driver: geometry and markup\<close>

text \<open>The angle of petal \<open>j\<close>: \<open>segment * j + starting_angle\<close> with \<open>segment = 360 / petals\<close>.\<close>

definition petals :: nat where
  "petals = 8"

definition petal_width :: real where
  "petal_width = 80"

definition petal_angle :: "nat \<Rightarrow> real" where
  "petal_angle j = (let segment = 360 / real petals; starting_angle = 0
                    in segment * real j + starting_angle)"

text \<open>The list \<open>paths\<close> built by the loop over \<open>range(petals)\<close>.\<close>

definition main_paths :: "(real \<Rightarrow> string) \<Rightarrow> string list" where
  "main_paths float_str =
     (let cx = real_of_int SIZE / 2; cy = real_of_int SIZE / 2
      in map (\<lambda>j. make_petal_path float_str cx cy petal_width (petal_angle j)) [0..<petals])"

definition petal_color :: string where
  "petal_color = (let hue_flower = 30 in hsl_to_hex hue_flower 70 50)"

definition center_color :: string where
  "center_color = (let hue_flower = 30; hue_center = hue_flower - 20 in hsl_to_hex hue_center 65 45)"

definition path_element :: "string \<Rightarrow> string" where
  \<open>path_element p = ''<path d="'' @ p @ ''"/>''\<close>

definition rect_element :: string where
  \<open>rect_element = ''<rect width="100%" height="100%" fill="'' @ BG_COLOR @ ''"/>''\<close>

definition group_open :: string where
  \<open>group_open = ''<g fill="'' @ petal_color @ ''" stroke="'' @ petal_color @ ''" stroke-width="2">''\<close>

definition circle_element :: "(real \<Rightarrow> string) \<Rightarrow> string" where
  \<open>circle_element float_str =
     (let cx = real_of_int SIZE / 2; cy = real_of_int SIZE / 2;
          center_radius = petal_width * 0.14
      in ''<circle cx="'' @ float_str cx @ ''" cy="'' @ float_str cy @ ''" r="'' @
         float_str center_radius @ ''" fill="'' @ center_color @ ''"/>'')\<close>

text \<open>The f-string \<open>svg\<close>, line by line; \<open>CHR 0x0A\<close> is the newline.\<close>

definition main_svg :: "(real \<Rightarrow> string) \<Rightarrow> string" where
  \<open>main_svg float_str =
     ''<?xml version="1.0" encoding="UTF-8"?>'' @ [CHR 0x0A] @
     ''<svg xmlns="http://www.w3.org/2000/svg" viewBox="0 0 '' @ int_str SIZE @ '' '' @
       int_str SIZE @ ''" width="'' @ int_str SIZE @ ''" height="'' @ int_str SIZE @ ''">'' @
       [CHR 0x0A] @
     ''  '' @ rect_element @ [CHR 0x0A] @
     ''  '' @ group_open @ [CHR 0x0A] @
     ''    '' @ concat (map path_element (main_paths float_str)) @ [CHR 0x0A] @
     ''  </g>'' @ [CHR 0x0A] @
     ''  '' @ circle_element float_str @ [CHR 0x0A] @
     ''</svg>'' @ [CHR 0x0A]\<close>


subsection \<open>The driver: output\<close>

text \<open>
  Exceptions are values. \<open>ImportError\<close> stands for the class and its subclasses, which
  the \<open>except ImportError\<close> clause catches; every other exception carries its class name.
\<close>

datatype exn = ImportError | OtherError string

text \<open>The effects of a run, in the order they happen.\<close>

datatype event =
    Makedirs string
  | Svg2Png string string int int
  | WriteFile string string
  | Print string

text \<open>
  What the surroundings of a run decide: for each operation that can raise, the
  exception it raises, or \<open>None\<close> when it succeeds. A rasterization that raises is taken
  to have written nothing.
\<close>

record env =
  makedirs_raises :: "exn option"
  import_cairosvg_raises :: "exn option"
  svg2png_raises :: "exn option"
  write_raises :: "exn option"

text \<open>\<open>os.path.dirname\<close> of a POSIX path.\<close>

definition dirname :: "string \<Rightarrow> string" where
  "dirname p =
     (let head = rev (dropWhile (\<lambda>c. c \<noteq> CHR ''/'') (rev p))
      in if head \<noteq> [] \<and> head \<noteq> replicate (length head) CHR ''/''
         then rev (dropWhile (\<lambda>c. c = CHR ''/'') (rev head)) else head)"

text \<open>
  \<open>str.replace(old, new)\<close> for a non-empty \<open>old\<close>: every occurrence, left to right,
  without overlap.
\<close>

fun str_replace :: "string \<Rightarrow> string \<Rightarrow> string \<Rightarrow> string" where
  "str_replace old new [] = []"
| "str_replace old new (c # cs) =
     (if old \<noteq> [] \<and> prefix old (c # cs)
      then new @ str_replace old new (drop (length old - 1) cs)
      else c # str_replace old new cs)"

text \<open>
  The body of the \<open>try\<close> block: the effects it completed and the exception that left it,
  if any.
\<close>

definition try_rasterize :: "env \<Rightarrow> string \<Rightarrow> event list \<times> exn option" where
  "try_rasterize e svg =
     (case import_cairosvg_raises e of
        Some x \<Rightarrow> ([], Some x)
      | None \<Rightarrow>
          (case svg2png_raises e of
             Some x \<Rightarrow> ([], Some x)
           | None \<Rightarrow> ([Svg2Png svg OUTPUT_PATH SIZE SIZE, Print (''Wrote '' @ OUTPUT_PATH)], None)))"

text \<open>The body of the \<open>except ImportError\<close> clause.\<close>

definition write_svg_fallback :: "env \<Rightarrow> string \<Rightarrow> event list \<times> exn option" where
  "write_svg_fallback e svg =
     (let svg_path = str_replace ''.png'' ''.svg'' OUTPUT_PATH
      in case write_raises e of
           Some x \<Rightarrow> ([], Some x)
         | None \<Rightarrow>
             ([WriteFile svg_path svg,
               Print (''Wrote '' @ svg_path @
                 '' (cairosvg not installed; run: pip install cairosvg, then re-run to get PNG)''),
               Print ''Or convert manually: cairosvg -o public/apple-touch-icon.png -W 180 -H 180 public/apple-touch-icon.svg''],
              None))"

text \<open>
  A run of \<open>main\<close>: the trace of its effects and the exception that ended it, \<open>None\<close>
  for a normal completion.
\<close>

definition main :: "(real \<Rightarrow> string) \<Rightarrow> env \<Rightarrow> event list \<times> exn option" where
  "main float_str e =
     (let svg = main_svg float_str
      in case makedirs_raises e of
           Some x \<Rightarrow> ([], Some x)
         | None \<Rightarrow>
             (case try_rasterize e svg of
                (t, None) \<Rightarrow> (Makedirs (dirname OUTPUT_PATH) # t, None)
              | (t, Some ImportError) \<Rightarrow>
                  (case write_svg_fallback e svg of
                     (t', r) \<Rightarrow> (Makedirs (dirname OUTPUT_PATH) # t @ t', r))
              | (t, Some (OtherError n)) \<Rightarrow>
                  (Makedirs (dirname OUTPUT_PATH) # t, Some (OtherError n))))"

section \<open>Properties\<close>

subsection \<open>The polar conversion\<close>

lemma polar_dist_abs: "euclid_dist (polar cx cy r a) (cx, cy) = \<bar>r\<bar>"
proof -
  have "(r * cos t)\<^sup>2 + (r * sin t)\<^sup>2 = r\<^sup>2" for t :: real
  proof -
    have "(r * cos t)\<^sup>2 + (r * sin t)\<^sup>2 = r\<^sup>2 * ((sin t)\<^sup>2 + (cos t)\<^sup>2)"
      by (simp only: power_mult_distrib distrib_left add.commute)
    then show ?thesis by (simp only: sin_cos_squared_add mult_1_right)
  qed
  then show ?thesis
    by (simp add: euclid_dist_def polar_def Let_def)
qed

lemma polar_fst_bounds: "0 \<le> r \<Longrightarrow> cx - r \<le> fst (polar cx cy r a) \<and> fst (polar cx cy r a) \<le> cx + r"
proof -
  assume r: "0 \<le> r"
  let ?t = "(a - 90) * pi / 180"
  have "- 1 \<le> cos ?t" "cos ?t \<le> 1" by simp_all
  then have "r * (- 1) \<le> r * cos ?t" "r * cos ?t \<le> r * 1"
    using r by (intro mult_left_mono; simp)+
  then show ?thesis by (simp add: polar_def Let_def)
qed

lemma polar_snd_bounds: "0 \<le> r \<Longrightarrow> cy - r \<le> snd (polar cx cy r a) \<and> snd (polar cx cy r a) \<le> cy + r"
proof -
  assume r: "0 \<le> r"
  let ?t = "(a - 90) * pi / 180"
  have "- 1 \<le> sin ?t" "sin ?t \<le> 1" by simp_all
  then have "r * (- 1) \<le> r * sin ?t" "r * sin ?t \<le> r * 1"
    using r by (intro mult_left_mono; simp)+
  then show ?thesis by (simp add: polar_def Let_def)
qed

text \<open>
  C1. For every centre, every radius \<open>r\<close> (a radius is non-negative) and every angle in
  degrees, the point returned by \<open>polar\<close> lies at Euclidean distance \<open>r\<close> from the centre.
\<close>

theorem polar_distance: "0 \<le> r \<Longrightarrow> euclid_dist (polar cx cy r theta) (cx, cy) = r"
  by (simp add: polar_dist_abs)

theorem polar_distance_witness:
  "(0::real) \<le> 80 \<and> euclid_dist (polar 90 90 80 25) (90, 90) = 80"
  using polar_distance [of 80 90 90 25] by simp

text \<open>
  The angle convention over the reals: angle 0 points straight up and angles increase
  clockwise, because the angle is rotated by \<open>-90\<close> degrees before the conversion to
  radians and the projection. The equalities are those of the real \<open>cos\<close>, \<open>sin\<close> and
  \<open>pi\<close>. The rounding of doubles is outside this model, so nothing is stated here about
  exact equality of the values the program computes.
\<close>

lemma polar_convention_real:
  "polar cx cy r 0 = (cx, cy - r) \<and> polar cx cy r 90 = (cx + r, cy) \<and>
   polar cx cy r theta =
     (cx + r * cos ((theta - 90) * pi / 180), cy + r * sin ((theta - 90) * pi / 180))"
proof -
  have "(0 - 90) * pi / 180 = - (pi / 2)" by simp
  then have "polar cx cy r 0 = (cx, cy - r)"
    unfolding polar_def Let_def by (simp only: cos_minus sin_minus cos_pi_half sin_pi_half) simp
  moreover have "polar cx cy r 90 = (cx + r, cy)"
    by (simp add: polar_def)
  moreover have "polar cx cy r theta =
     (cx + r * cos ((theta - 90) * pi / 180), cy + r * sin ((theta - 90) * pi / 180))"
    by (simp add: polar_def Let_def)
  ultimately show ?thesis by simp
qed

subsection \<open>The colour conversion\<close>

lemma py_fmod_2_range: "0 \<le> py_fmod t 2 \<and> py_fmod t 2 < 2"
proof -
  have "of_int \<lfloor>t / 2\<rfloor> \<le> t / 2" "t / 2 < of_int \<lfloor>t / 2\<rfloor> + 1"
    by linarith+
  then show ?thesis unfolding py_fmod_def by linarith
qed

lemma py_round_bounds:
  assumes "0 \<le> v" "v \<le> 255"
  shows "0 \<le> py_round v \<and> py_round v \<le> 255"
proof -
  have f0: "0 \<le> \<lfloor>v\<rfloor>" using assms by simp
  have f1: "\<lfloor>v\<rfloor> \<le> 255" using assms by (simp add: floor_le_iff)
  show ?thesis
  proof (cases "\<lfloor>v\<rfloor> = 255")
    case True
    then have "255 \<le> v" by (metis of_int_floor_le of_int_numeral)
    then have "v = 255" using assms by simp
    then show ?thesis by (simp add: py_round_def)
  next
    case False
    then have f2: "\<lfloor>v\<rfloor> \<le> 254" using f1 by linarith
    define f where "f = \<lfloor>v\<rfloor>"
    have "0 \<le> f" "f \<le> 254" using f0 f2 by (simp_all only: f_def)
    then have "0 \<le> (if v - of_int f < 1 / 2 then f else if 1 / 2 < v - of_int f then f + 1
                   else if even f then f else f + 1) \<and>
               (if v - of_int f < 1 / 2 then f else if 1 / 2 < v - of_int f then f + 1
                   else if even f then f else f + 1) \<le> 255"
      by auto
    then show ?thesis unfolding py_round_def Let_def f_def .
  qed
qed

lemma hex_digit_lower: "d < 16 \<Longrightarrow> lower_hex_char (hex_digit d)"
  by (simp add: hex_digit_def lower_hex_char_def nth_mem del: set_simps)

lemma hex_nat_small: "n < 16 \<Longrightarrow> hex_nat n = [hex_digit n]"
  by (simp add: hex_nat.simps)

lemma hex_nat_byte: "16 \<le> n \<Longrightarrow> n < 256 \<Longrightarrow> hex_nat n = [hex_digit (n div 16), hex_digit (n mod 16)]"
  by (subst hex_nat.simps) (simp add: hex_nat_small)

lemma format_02x_byte:
  assumes "0 \<le> n" "n \<le> 255"
  shows "length (format_02x n) = 2 \<and> list_all lower_hex_char (format_02x n)"
proof (cases "nat n < 16")
  case True
  then have "format_02x n = [CHR ''0'', hex_digit (nat n)]"
    using assms by (simp add: format_02x_def hex_nat_small)
  moreover have "lower_hex_char CHR ''0''" by (simp add: lower_hex_char_def)
  ultimately show ?thesis using True by (simp add: hex_digit_lower)
next
  case False
  then have "format_02x n = [hex_digit (nat n div 16), hex_digit (nat n mod 16)]"
    using assms by (simp add: format_02x_def hex_nat_byte)
  moreover have "nat n div 16 < 16" using assms by simp
  ultimately show ?thesis by (simp add: hex_digit_lower)
qed

lemma chroma_bounds:
  fixes s l u :: real
  assumes s: "0 \<le> s" "s \<le> 1" and l: "0 \<le> l" "l \<le> 1" and u: "0 \<le> u" "u < 2"
  defines "c \<equiv> (1 - \<bar>2 * l - 1\<bar>) * s"
  defines "x \<equiv> c * (1 - \<bar>u - 1\<bar>)"
  defines "m \<equiv> l - c / 2"
  shows "0 \<le> m" "0 \<le> x" "x \<le> c" "c + m \<le> 1"
proof -
  have k: "0 \<le> 1 - \<bar>2 * l - 1\<bar>" using l by linarith
  have c0: "0 \<le> c" unfolding c_def using k s by (intro mult_nonneg_nonneg)
  have "(1 - \<bar>2 * l - 1\<bar>) * s \<le> (1 - \<bar>2 * l - 1\<bar>) * 1"
    using k s by (intro mult_left_mono)
  then have ck: "c \<le> 1 - \<bar>2 * l - 1\<bar>" by (simp add: c_def)
  show "0 \<le> m" unfolding m_def using ck l by linarith
  show "c + m \<le> 1" unfolding m_def using ck l by linarith
  have w: "0 \<le> 1 - \<bar>u - 1\<bar>" "1 - \<bar>u - 1\<bar> \<le> 1" using u by linarith+
  show "0 \<le> x" unfolding x_def using c0 w by (intro mult_nonneg_nonneg)
  have "c * (1 - \<bar>u - 1\<bar>) \<le> c * 1" using c0 w by (intro mult_left_mono)
  then show "x \<le> c" by (simp add: x_def)
qed

lemma channel_round_byte:
  fixes v m :: real
  assumes "0 \<le> v" "0 \<le> m" "v + m \<le> 1"
  shows "0 \<le> py_round ((v + m) * 255) \<and> py_round ((v + m) * 255) \<le> 255"
proof -
  have "0 \<le> (v + m) * 255" using assms by simp
  moreover have "(v + m) * 255 \<le> 255" using assms by simp
  ultimately show ?thesis by (rule py_round_bounds)
qed

lemma hsl_channels_bytes:
  assumes "0 \<le> s_pct" "s_pct \<le> 100" "0 \<le> l_pct" "l_pct \<le> 100"
  shows "case hsl_channels h s_pct l_pct of (r, g, b) \<Rightarrow> is_byte r \<and> is_byte g \<and> is_byte b"
proof -
  define s where "s = s_pct / 100"
  define l where "l = l_pct / 100"
  define c where "c = (1 - \<bar>2 * l - 1\<bar>) * s"
  define x where "x = c * (1 - \<bar>py_fmod (h / 60) 2 - 1\<bar>)"
  define m where "m = l - c / 2"
  have sl: "0 \<le> s" "s \<le> 1" "0 \<le> l" "l \<le> 1" using assms by (simp_all add: s_def l_def)
  have u: "0 \<le> py_fmod (h / 60) 2" "py_fmod (h / 60) 2 < 2" using py_fmod_2_range by simp_all
  have cb: "0 \<le> m" "0 \<le> x" "x \<le> c" "c + m \<le> 1"
    unfolding m_def x_def c_def by (rule chroma_bounds [OF sl u])+
  have c0: "0 \<le> c" using cb by linarith
  have xm: "x + m \<le> 1" using cb by linarith
  have zm: "0 + m \<le> 1" using cb c0 by linarith
  have C: "is_byte (py_round ((c + m) * 255))"
    unfolding is_byte_def using c0 cb by (intro channel_round_byte)
  have X: "is_byte (py_round ((x + m) * 255))"
    unfolding is_byte_def using xm cb by (intro channel_round_byte)
  have Z: "is_byte (py_round ((0 + m) * 255))"
    unfolding is_byte_def using zm cb by (intro channel_round_byte) simp_all
  have eq: "hsl_channels h s_pct l_pct =
     (let (r, g, b) =
            (if h < 60 then (c, x, 0)
             else if h < 120 then (x, c, 0)
             else if h < 180 then (0, c, x)
             else if h < 240 then (0, x, c)
             else if h < 300 then (x, 0, c)
             else (c, 0, x))
      in (py_round ((r + m) * 255), py_round ((g + m) * 255), py_round ((b + m) * 255)))"
    unfolding hsl_channels_def Let_def s_def l_def c_def x_def m_def ..
  show ?thesis unfolding eq Let_def using C X Z by (simp split: if_splits)
qed

lemma hex_colour_of_bytes:
  assumes "is_byte r" "is_byte g" "is_byte b"
  shows "matches_hex_colour (CHR ''#'' # format_02x r @ format_02x g @ format_02x b)"
  using assms format_02x_byte [of r] format_02x_byte [of g] format_02x_byte [of b]
  by (simp add: matches_hex_colour_def is_byte_def)

text \<open>
  C3. For every hue in \<open>[0, 360)\<close> and every saturation and lightness in \<open>[0, 100]\<close>,
  \<open>hsl_to_hex\<close> returns a string matching \<open>#[0-9a-f]{6}\<close>: a \<open>#\<close> followed by exactly
  six lowercase hexadecimal digits, each rounded channel lying in \<open>[0, 255]\<close>.
\<close>

theorem hsl_to_hex_pattern:
  assumes "0 \<le> h" "h < 360" "0 \<le> s_pct" "s_pct \<le> 100" "0 \<le> l_pct" "l_pct \<le> 100"
  shows "matches_hex_colour (hsl_to_hex h s_pct l_pct) \<and>
         (case hsl_channels h s_pct l_pct of (r, g, b) \<Rightarrow> is_byte r \<and> is_byte g \<and> is_byte b)"
proof -
  obtain r g b where ch: "hsl_channels h s_pct l_pct = (r, g, b)"
    by (cases "hsl_channels h s_pct l_pct") auto
  have bytes: "is_byte r \<and> is_byte g \<and> is_byte b"
    using hsl_channels_bytes [OF assms(3-6), of h] by (simp add: ch)
  then have "matches_hex_colour (hsl_to_hex h s_pct l_pct)"
    by (simp add: hsl_to_hex_def ch hex_colour_of_bytes)
  then show ?thesis using bytes by (simp add: ch)
qed

theorem hsl_to_hex_pattern_witness:
  "(0::real) \<le> 10 \<and> (10::real) < 360 \<and> (0::real) \<le> 65 \<and> (65::real) \<le> 100 \<and>
   (0::real) \<le> 45 \<and> (45::real) \<le> 100 \<and>
   matches_hex_colour (hsl_to_hex 10 65 45) \<and>
   (case hsl_channels 10 65 45 of (r, g, b) \<Rightarrow> is_byte r \<and> is_byte g \<and> is_byte b)"
  using hsl_to_hex_pattern [of 10 65 45] by simp

text \<open>
  C4. The reference values: pure red, pure green, white and black.
\<close>

theorem hsl_to_hex_reference_values:
  "hsl_to_hex 0 100 50 = ''#ff0000'' \<and> hsl_to_hex 120 100 50 = ''#00ff00'' \<and>
   hsl_to_hex 0 0 100 = ''#ffffff'' \<and> hsl_to_hex 0 0 0 = ''#000000''"
  by (simp add: hsl_to_hex_def hsl_channels_def py_fmod_def py_round_def format_02x_def
      hex_nat.simps hex_digit_def)

subsection \<open>Number formatting\<close>

lemma dec_digit_in: "d < 10 \<Longrightarrow> dec_digit d \<in> set ''0123456789''"
  by (simp add: dec_digit_def nth_mem del: set_simps)

lemma dec_digit_inj: "a < 10 \<Longrightarrow> b < 10 \<Longrightarrow> dec_digit a = dec_digit b \<Longrightarrow> a = b"
proof -
  assume a: "a < 10" and b: "b < 10" and e: "dec_digit a = dec_digit b"
  have d: "distinct ''0123456789''" by simp
  have "length ''0123456789'' = 10" by simp
  with a b e d show "a = b"
    unfolding dec_digit_def by (metis nth_eq_iff_index_eq)
qed

lemma dec_nat_nonempty: "dec_nat n \<noteq> []"
  by (subst dec_nat.simps) simp

lemma dec_nat_chars: "set (dec_nat n) \<subseteq> set ''0123456789''"
proof (induction n rule: dec_nat.induct)
  case (1 n)
  show ?case
  proof (cases "n < 10")
    case True
    then show ?thesis using dec_digit_in [of n] by (subst dec_nat.simps) simp
  next
    case False
    have "n mod 10 < 10" by simp
    then have "dec_digit (n mod 10) \<in> set ''0123456789''" by (rule dec_digit_in)
    then show ?thesis using False 1 by (subst dec_nat.simps) simp
  qed
qed

lemma dec_nat_length_ge2: "10 \<le> n \<Longrightarrow> 2 \<le> length (dec_nat n)"
proof -
  assume "10 \<le> n"
  then have "dec_nat n = dec_nat (n div 10) @ [dec_digit (n mod 10)]"
    by (subst dec_nat.simps) simp
  moreover have "1 \<le> length (dec_nat (n div 10))"
    using dec_nat_nonempty [of "n div 10"] by (cases "dec_nat (n div 10)") simp_all
  ultimately show ?thesis by simp
qed

lemma dec_nat_inj: "dec_nat a = dec_nat b \<Longrightarrow> a = b"
proof (induction a arbitrary: b rule: dec_nat.induct)
  case (1 a)
  show ?case
  proof (cases "a < 10")
    case a: True
    then have sa: "dec_nat a = [dec_digit a]" by (subst dec_nat.simps) simp
    show ?thesis
    proof (cases "b < 10")
      case True
      then have "dec_nat b = [dec_digit b]" by (subst dec_nat.simps) simp
      with sa "1.prems" have "dec_digit a = dec_digit b" by simp
      with a True show ?thesis by (rule dec_digit_inj)
    next
      case False
      then have "2 \<le> length (dec_nat b)" by (intro dec_nat_length_ge2) simp
      with sa "1.prems" show ?thesis by simp
    qed
  next
    case a: False
    then have sa: "dec_nat a = dec_nat (a div 10) @ [dec_digit (a mod 10)]"
      by (subst dec_nat.simps) simp
    show ?thesis
    proof (cases "b < 10")
      case True
      then have "dec_nat b = [dec_digit b]" by (subst dec_nat.simps) simp
      moreover have "2 \<le> length (dec_nat a)" using a by (intro dec_nat_length_ge2) simp
      ultimately show ?thesis using "1.prems" by simp
    next
      case False
      then have "dec_nat b = dec_nat (b div 10) @ [dec_digit (b mod 10)]"
        by (subst dec_nat.simps) simp
      with sa "1.prems" have e: "dec_nat (a div 10) = dec_nat (b div 10)"
        "dec_digit (a mod 10) = dec_digit (b mod 10)" by simp_all
      from e(1) have "a div 10 = b div 10" using a by (intro "1.IH") simp_all
      moreover have "a mod 10 = b mod 10"
        using e(2) by (intro dec_digit_inj) simp_all
      ultimately show ?thesis by (metis div_mult_mod_eq)
    qed
  qed
qed

lemma decimal1_numeric: "numeric_repr decimal1_str"
proof -
  define A where "A = set ''0123456789.e+-infa''"
  have sub: "set ''0123456789'' \<subseteq> A" by (simp add: A_def)
  have "decimal1_str v \<noteq> [] \<and> set (decimal1_str v) \<subseteq> A" for v
  proof -
    define t where "t = nat \<lfloor>\<bar>v\<bar> * 10\<rfloor>"
    have 1: "set (dec_nat (t div 10)) \<subseteq> A"
      using dec_nat_chars sub by (rule subset_trans)
    have "dec_digit (t mod 10) \<in> set ''0123456789''" by (intro dec_digit_in) simp
    then have 2: "dec_digit (t mod 10) \<in> A" using sub by (rule rev_subsetD)
    have 3: "CHR ''.'' \<in> A" "CHR ''-'' \<in> A" by (simp_all add: A_def)
    show ?thesis
      unfolding decimal1_str_def Let_def t_def [symmetric] using 1 2 3 by auto
  qed
  then show ?thesis unfolding numeric_repr_def A_def by blast
qed

lemma decimal1_separates: "separates_canvas decimal1_str"
proof -
  have "\<bar>a - b\<bar> < 1"
    if a: "0 \<le> a" and b: "0 \<le> b" and e: "decimal1_str a = decimal1_str b" for a b :: real
  proof -
    define s where "s = nat \<lfloor>\<bar>a\<bar> * 10\<rfloor>"
    define t where "t = nat \<lfloor>\<bar>b\<bar> * 10\<rfloor>"
    have "dec_nat (s div 10) @ [CHR ''.'', dec_digit (s mod 10)] =
          dec_nat (t div 10) @ [CHR ''.'', dec_digit (t mod 10)]"
      using e a b by (simp add: decimal1_str_def Let_def s_def t_def)
    then have "dec_nat (s div 10) = dec_nat (t div 10)" "dec_digit (s mod 10) = dec_digit (t mod 10)"
      by simp_all
    then have "s div 10 = t div 10" "s mod 10 = t mod 10"
      by (auto dest: dec_nat_inj intro: dec_digit_inj)
    then have "s = t" by (metis div_mult_mod_eq)
    moreover have "0 \<le> \<lfloor>a * 10\<rfloor>" "0 \<le> \<lfloor>b * 10\<rfloor>" using a b by simp_all
    ultimately have "\<lfloor>a * 10\<rfloor> = \<lfloor>b * 10\<rfloor>"
      using a b by (simp add: s_def t_def eq_nat_nat_iff)
    then show ?thesis by linarith
  qed
  then show ?thesis unfolding separates_canvas_def by blast
qed

subsection \<open>The petal path\<close>

lemma numeric_repr_no_char:
  assumes "numeric_repr float_str" "c \<notin> set ''0123456789.e+-infa''"
  shows "c \<notin> set (float_str v)"
  using assms unfolding numeric_repr_def by blast

lemma numeric_repr_count:
  assumes "numeric_repr float_str" "c \<notin> set ''0123456789.e+-infa''"
  shows "count_list (float_str v) c = 0"
  using numeric_repr_no_char [OF assms] by (simp add: count_list_0_iff)

lemma polar_zero_radius: "polar cx cy 0 a = (cx, cy)"
  by (simp add: polar_def)

lemma make_petal_path_unfold:
  "make_petal_path float_str cx cy w a =
     ''M '' @ float_str cx @ '' '' @ float_str cy @ '' C '' @
     float_str (fst (polar cx cy w (a - 20))) @ '' '' @
     float_str (snd (polar cx cy w (a - 20))) @ '' '' @
     float_str (fst (polar cx cy w (a + 20))) @ '' '' @
     float_str (snd (polar cx cy w (a + 20))) @ '' '' @
     float_str cx @ '' '' @ float_str cy"
  by (simp add: make_petal_path_def petal_controls_def)

text \<open>
  C5. The path string is one move-to followed by exactly one cubic-curve command: it
  starts at \<open>(cx, cy)\<close>, its first control point is \<open>polar cx cy radius (angle - 20)\<close>, its
  second is \<open>polar cx cy radius (angle + 20)\<close>, and it ends at \<open>(cx, cy)\<close>. Every input
  yields a string; with radius 0 both control points are the centre.
\<close>

theorem make_petal_path_single_cubic:
  assumes "numeric_repr float_str"
  shows "petal_controls cx cy radius angle =
           (polar cx cy radius (angle - 20), polar cx cy radius (angle + 20)) \<and>
         make_petal_path float_str cx cy radius angle =
           ''M '' @ float_str cx @ '' '' @ float_str cy @ '' C '' @
           float_str (fst (polar cx cy radius (angle - 20))) @ '' '' @
           float_str (snd (polar cx cy radius (angle - 20))) @ '' '' @
           float_str (fst (polar cx cy radius (angle + 20))) @ '' '' @
           float_str (snd (polar cx cy radius (angle + 20))) @ '' '' @
           float_str cx @ '' '' @ float_str cy \<and>
         count_list (make_petal_path float_str cx cy radius angle) CHR ''C'' = 1 \<and>
         count_list (make_petal_path float_str cx cy radius angle) CHR ''M'' = 1 \<and>
         make_petal_path float_str cx cy 0 angle =
           ''M '' @ float_str cx @ '' '' @ float_str cy @ '' C '' @
           float_str cx @ '' '' @ float_str cy @ '' '' @
           float_str cx @ '' '' @ float_str cy @ '' '' @
           float_str cx @ '' '' @ float_str cy"
proof -
  have 1: "petal_controls cx cy radius angle =
           (polar cx cy radius (angle - 20), polar cx cy radius (angle + 20))"
    by (simp add: petal_controls_def)
  have 3: "count_list (make_petal_path float_str cx cy radius angle) CHR ''C'' = 1"
    unfolding make_petal_path_unfold by (simp add: numeric_repr_count [OF assms])
  have 4: "count_list (make_petal_path float_str cx cy radius angle) CHR ''M'' = 1"
    unfolding make_petal_path_unfold by (simp add: numeric_repr_count [OF assms])
  have 5: "make_petal_path float_str cx cy 0 angle =
           ''M '' @ float_str cx @ '' '' @ float_str cy @ '' C '' @
           float_str cx @ '' '' @ float_str cy @ '' '' @
           float_str cx @ '' '' @ float_str cy @ '' '' @
           float_str cx @ '' '' @ float_str cy"
    unfolding make_petal_path_unfold polar_zero_radius by simp
  show ?thesis using 1 make_petal_path_unfold 3 4 5 by blast
qed

lemma decimal1_str_90: "decimal1_str 90 = ''90.0''"
  by (simp add: decimal1_str_def dec_nat.simps dec_digit_def)

theorem make_petal_path_single_cubic_witness:
  "numeric_repr decimal1_str \<and>
   make_petal_path decimal1_str 90 90 0 45 = ''M 90.0 90.0 C 90.0 90.0 90.0 90.0 90.0 90.0'' \<and>
   count_list (make_petal_path decimal1_str 90 90 0 45) CHR ''C'' = 1"
  using make_petal_path_single_cubic [OF decimal1_numeric, of 90 90 0 45] decimal1_numeric
  by (simp add: decimal1_str_90 polar_zero_radius)

subsection \<open>The geometry of the driver\<close>

lemma cos_le_off_axis:
  fixes t :: real
  assumes "pi / 4 \<le> \<bar>t\<bar>" "\<bar>t\<bar> \<le> 7 * pi / 4"
  shows "cos t \<le> sqrt 2 / 2"
proof -
  have "cos t = cos \<bar>t\<bar>" by (cases "0 \<le> t") (simp_all add: abs_if)
  also have "cos \<bar>t\<bar> \<le> cos (pi / 4)"
  proof (cases "\<bar>t\<bar> \<le> pi")
    case True
    show ?thesis using assms(1) True by (intro cos_monotone_0_pi_le) simp_all
  next
    case False
    have "cos (2 * pi - \<bar>t\<bar>) \<le> cos (pi / 4)"
      using assms(2) False by (intro cos_monotone_0_pi_le) simp_all
    then show ?thesis by (simp only: cos_2pi_minus)
  qed
  also have "cos (pi / 4) = sqrt 2 / 2" by (rule cos_45)
  finally show ?thesis .
qed

lemma sqrt2_le: "sqrt 2 \<le> 3 / 2"
  by (rule real_le_lsqrt) (simp_all add: power2_eq_square)

lemma chord_sq_alg:
  fixes r p q u v :: real
  shows "(r * p - r * q)\<^sup>2 + (r * u - r * v)\<^sup>2 =
         r\<^sup>2 * (((u\<^sup>2 + p\<^sup>2) + (v\<^sup>2 + q\<^sup>2)) - 2 * (p * q + u * v))"
  by algebra

lemma chord_sq:
  fixes r A B :: real
  shows "(r * cos A - r * cos B)\<^sup>2 + (r * sin A - r * sin B)\<^sup>2 = r\<^sup>2 * (2 - 2 * cos (A - B))"
  by (simp only: chord_sq_alg sin_cos_squared_add cos_diff) simp

lemma polar_far_apart:
  fixes a b :: real
  assumes "45 \<le> \<bar>a - b\<bar>" "\<bar>a - b\<bar> \<le> 315"
  shows "\<not> (\<bar>fst (polar cx cy 80 a) - fst (polar cx cy 80 b)\<bar> < 1 \<and>
            \<bar>snd (polar cx cy 80 a) - snd (polar cx cy 80 b)\<bar> < 1)"
proof
  define A where "A = (a - 90) * pi / 180"
  define B where "B = (b - 90) * pi / 180"
  define dx where "dx = 80 * cos A - 80 * cos B"
  define dy where "dy = 80 * sin A - 80 * sin B"
  assume "\<bar>fst (polar cx cy 80 a) - fst (polar cx cy 80 b)\<bar> < 1 \<and>
          \<bar>snd (polar cx cy 80 a) - snd (polar cx cy 80 b)\<bar> < 1"
  then have d: "\<bar>dx\<bar> < 1" "\<bar>dy\<bar> < 1"
    by (simp_all add: polar_def Let_def A_def B_def dx_def dy_def)
  have "dx\<^sup>2 < 1" "dy\<^sup>2 < 1" using d by (simp_all add: abs_square_less_1)
  then have small: "dx\<^sup>2 + dy\<^sup>2 < 2" by linarith
  have AB: "A - B = (a - b) * pi / 180" by (simp add: A_def B_def field_simps)
  have e: "\<bar>A - B\<bar> = \<bar>a - b\<bar> * (pi / 180)" by (simp add: AB abs_mult)
  have lo: "45 * (pi / 180) \<le> \<bar>a - b\<bar> * (pi / 180)"
    using assms(1) by (intro mult_right_mono) simp_all
  have hi: "\<bar>a - b\<bar> * (pi / 180) \<le> 315 * (pi / 180)"
    using assms(2) by (intro mult_right_mono) simp_all
  have "pi / 4 \<le> \<bar>A - B\<bar>" "\<bar>A - B\<bar> \<le> 7 * pi / 4"
    unfolding e using lo hi by linarith+
  then have "cos (A - B) \<le> sqrt 2 / 2" by (rule cos_le_off_axis)
  then have "cos (A - B) \<le> 3 / 4" using sqrt2_le by linarith
  then have "(80::real)\<^sup>2 * (2 - 2 * cos (A - B)) \<ge> 3200" by simp
  then have "dx\<^sup>2 + dy\<^sup>2 \<ge> 3200" unfolding dx_def dy_def by (simp only: chord_sq)
  with small show False by linarith
qed

lemma split_at_separator:
  assumes "c \<notin> set xs" "c \<notin> set xs'" "xs @ c # ys = xs' @ c # ys'"
  shows "xs = xs' \<and> ys = ys'"
  using assms
proof (induction xs arbitrary: xs')
  case Nil
  then show ?case by (cases xs') auto
next
  case (Cons x xs)
  then show ?case by (cases xs') auto
qed

lemma petal_angle_eq: "petal_angle j = 45 * real j"
  by (simp add: petal_angle_def petals_def)

lemma main_paths_eq:
  "main_paths float_str = map (\<lambda>j. make_petal_path float_str 90 90 80 (45 * real j)) [0..<8]"
  by (simp add: main_paths_def SIZE_def petal_width_def petal_angle_eq petals_def)

lemma main_paths_length: "length (main_paths float_str) = 8"
  by (simp add: main_paths_eq)

lemma main_paths_nth:
  "j < 8 \<Longrightarrow> main_paths float_str ! j = make_petal_path float_str 90 90 80 (45 * real j)"
  unfolding main_paths_eq by (simp only: nth_map_upt) simp

lemma control_point_margin:
  "10 \<le> fst (polar 90 90 80 a) \<and> fst (polar 90 90 80 a) \<le> 170 \<and>
   10 \<le> snd (polar 90 90 80 a) \<and> snd (polar 90 90 80 a) \<le> 170"
  using polar_fst_bounds [of 80 90 90 a] polar_snd_bounds [of 80 90 90 a] by simp

text \<open>
  C10. Every control point of every petal path built by the driver lies strictly inside
  the 180 by 180 canvas: with the centre \<open>(90, 90)\<close> and the petal radius 80, each of its
  coordinates lies in \<open>[10, 170]\<close>.
\<close>

theorem control_points_inside_canvas:
  assumes "j < petals"
  shows "main_paths float_str ! j =
           make_petal_path float_str (real_of_int SIZE / 2) (real_of_int SIZE / 2) petal_width
             (petal_angle j) \<and>
         (case petal_controls (real_of_int SIZE / 2) (real_of_int SIZE / 2) petal_width
                 (petal_angle j) of
            ((x1, y1), (x2, y2)) \<Rightarrow>
              10 \<le> x1 \<and> x1 \<le> 170 \<and> 10 \<le> y1 \<and> y1 \<le> 170 \<and>
              10 \<le> x2 \<and> x2 \<le> 170 \<and> 10 \<le> y2 \<and> y2 \<le> 170 \<and>
              0 < x1 \<and> x1 < real_of_int SIZE \<and> 0 < y1 \<and> y1 < real_of_int SIZE \<and>
              0 < x2 \<and> x2 < real_of_int SIZE \<and> 0 < y2 \<and> y2 < real_of_int SIZE)"
proof -
  have j: "j < 8" using assms by (simp add: petals_def)
  have 1: "main_paths float_str ! j =
           make_petal_path float_str (real_of_int SIZE / 2) (real_of_int SIZE / 2) petal_width
             (petal_angle j)"
    using main_paths_nth [OF j] by (simp add: SIZE_def petal_width_def petal_angle_eq)
  obtain x1 y1 where c1: "polar 90 90 80 (45 * real j - 20) = (x1, y1)"
    by (cases "polar 90 90 80 (45 * real j - 20)") auto
  obtain x2 y2 where c2: "polar 90 90 80 (45 * real j + 20) = (x2, y2)"
    by (cases "polar 90 90 80 (45 * real j + 20)") auto
  have b1: "10 \<le> x1 \<and> x1 \<le> 170 \<and> 10 \<le> y1 \<and> y1 \<le> 170"
    using control_point_margin [of "45 * real j - 20"] by (simp add: c1)
  have b2: "10 \<le> x2 \<and> x2 \<le> 170 \<and> 10 \<le> y2 \<and> y2 \<le> 170"
    using control_point_margin [of "45 * real j + 20"] by (simp add: c2)
  have pc: "petal_controls (real_of_int SIZE / 2) (real_of_int SIZE / 2) petal_width
              (petal_angle j) = ((x1, y1), (x2, y2))"
    by (simp add: petal_controls_def SIZE_def petal_width_def petal_angle_eq c1 c2)
  have 2: "10 \<le> x1 \<and> x1 \<le> 170 \<and> 10 \<le> y1 \<and> y1 \<le> 170 \<and>
           10 \<le> x2 \<and> x2 \<le> 170 \<and> 10 \<le> y2 \<and> y2 \<le> 170 \<and>
           0 < x1 \<and> x1 < real_of_int SIZE \<and> 0 < y1 \<and> y1 < real_of_int SIZE \<and>
           0 < x2 \<and> x2 < real_of_int SIZE \<and> 0 < y2 \<and> y2 < real_of_int SIZE"
    using b1 b2 by (simp add: SIZE_def)
  show ?thesis using 1 2 unfolding pc by simp
qed

theorem control_points_inside_canvas_witness:
  "(3::nat) < petals \<and>
   main_paths decimal1_str ! 3 = make_petal_path decimal1_str 90 90 80 135 \<and>
   (case petal_controls 90 90 80 135 of
      ((x1, y1), (x2, y2)) \<Rightarrow>
        10 \<le> x1 \<and> x1 \<le> 170 \<and> 10 \<le> y1 \<and> y1 \<le> 170 \<and>
        10 \<le> x2 \<and> x2 \<le> 170 \<and> 10 \<le> y2 \<and> y2 \<le> 170)"
proof -
  have h: "(3::nat) < petals" by (simp add: petals_def)
  have a: "petal_angle 3 = 135" by (simp add: petal_angle_def petals_def)
  show ?thesis
    using h control_points_inside_canvas [OF h, of decimal1_str]
    by (simp add: SIZE_def petal_width_def a split: prod.splits)
qed

lemma path_eq_first_control:
  assumes n: "numeric_repr float_str"
    and e: "make_petal_path float_str cx cy w a = make_petal_path float_str cx cy w b"
  shows "float_str (fst (polar cx cy w (a - 20))) = float_str (fst (polar cx cy w (b - 20))) \<and>
         float_str (snd (polar cx cy w (a - 20))) = float_str (snd (polar cx cy w (b - 20)))"
proof -
  have sp: "CHR '' '' \<notin> set (float_str v)" for v
    using n by (rule numeric_repr_no_char) simp
  define ra where "ra = float_str (snd (polar cx cy w (a - 20))) @ CHR '' '' #
      (float_str (fst (polar cx cy w (a + 20))) @ '' '' @
       float_str (snd (polar cx cy w (a + 20))) @ '' '' @ float_str cx @ '' '' @ float_str cy)"
  define rb where "rb = float_str (snd (polar cx cy w (b - 20))) @ CHR '' '' #
      (float_str (fst (polar cx cy w (b + 20))) @ '' '' @
       float_str (snd (polar cx cy w (b + 20))) @ '' '' @ float_str cx @ '' '' @ float_str cy)"
  have "float_str (fst (polar cx cy w (a - 20))) @ CHR '' '' # ra =
        float_str (fst (polar cx cy w (b - 20))) @ CHR '' '' # rb"
    using e unfolding make_petal_path_unfold ra_def rb_def by simp
  then have 1: "float_str (fst (polar cx cy w (a - 20))) = float_str (fst (polar cx cy w (b - 20)))"
    and r: "ra = rb"
    using split_at_separator [OF sp sp] by blast+
  have 2: "float_str (snd (polar cx cy w (a - 20))) = float_str (snd (polar cx cy w (b - 20)))"
    using r unfolding ra_def rb_def using split_at_separator [OF sp sp] by blast
  show ?thesis using 1 2 by simp
qed

lemma main_paths_inj:
  assumes n: "numeric_repr float_str" and s: "separates_canvas float_str"
    and i: "i < 8" and j: "j < 8"
    and e: "make_petal_path float_str 90 90 80 (45 * real i) =
            make_petal_path float_str 90 90 80 (45 * real j)"
  shows "i = j"
proof (rule ccontr)
  assume ne: "i \<noteq> j"
  define a where "a = 45 * real i - 20"
  define b where "b = 45 * real j - 20"
  have ab: "a - b = 45 * (real i - real j)" by (simp add: a_def b_def)
  have "1 \<le> \<bar>real i - real j\<bar>" "\<bar>real i - real j\<bar> \<le> 7" using ne i j by linarith+
  then have far: "45 \<le> \<bar>a - b\<bar>" "\<bar>a - b\<bar> \<le> 315" unfolding ab by (simp_all add: abs_mult)
  have f: "float_str (fst (polar 90 90 80 a)) = float_str (fst (polar 90 90 80 b))"
          "float_str (snd (polar 90 90 80 a)) = float_str (snd (polar 90 90 80 b))"
    using path_eq_first_control [OF n e] by (simp_all add: a_def b_def)
  have ra: "0 \<le> fst (polar 90 90 80 a) \<and> fst (polar 90 90 80 a) \<le> 180 \<and>
            0 \<le> snd (polar 90 90 80 a) \<and> snd (polar 90 90 80 a) \<le> 180"
    using control_point_margin [of a] by linarith
  have rb: "0 \<le> fst (polar 90 90 80 b) \<and> fst (polar 90 90 80 b) \<le> 180 \<and>
            0 \<le> snd (polar 90 90 80 b) \<and> snd (polar 90 90 80 b) \<le> 180"
    using control_point_margin [of b] by linarith
  have "\<bar>fst (polar 90 90 80 a) - fst (polar 90 90 80 b)\<bar> < 1"
    using s f(1) ra rb unfolding separates_canvas_def by blast
  moreover have "\<bar>snd (polar 90 90 80 a) - snd (polar 90 90 80 b)\<bar> < 1"
    using s f(2) ra rb unfolding separates_canvas_def by blast
  ultimately show False using polar_far_apart [OF far, of 90 90] by blast
qed

lemma main_paths_distinct:
  assumes "numeric_repr float_str" "separates_canvas float_str"
  shows "distinct (main_paths float_str)"
proof -
  have "inj_on (\<lambda>j. make_petal_path float_str 90 90 80 (45 * real j)) (set [0..<8])"
    using main_paths_inj [OF assms] by (intro inj_onI) simp
  then show ?thesis unfolding main_paths_eq by (simp only: distinct_map distinct_upt) 
qed

lemma make_petal_path_prefix:
  "prefix (''M '' @ float_str cx @ '' '' @ float_str cy @ '' C '')
          (make_petal_path float_str cx cy w a)"
  unfolding make_petal_path_unfold by (simp add: prefix_def)

lemma make_petal_path_suffix:
  "suffix ('' '' @ float_str cx @ '' '' @ float_str cy)
          (make_petal_path float_str cx cy w a)"
proof -
  have "make_petal_path float_str cx cy w a =
      (''M '' @ float_str cx @ '' '' @ float_str cy @ '' C '' @
       float_str (fst (polar cx cy w (a - 20))) @ '' '' @
       float_str (snd (polar cx cy w (a - 20))) @ '' '' @
       float_str (fst (polar cx cy w (a + 20))) @ '' '' @
       float_str (snd (polar cx cy w (a + 20)))) @
      ('' '' @ float_str cx @ '' '' @ float_str cy)"
    unfolding make_petal_path_unfold by simp
  then show ?thesis unfolding suffix_def by blast
qed

text \<open>
  C6. The driver's eight angles \<open>45 * j\<close>, \<open>j = 0..7\<close>, with centre \<open>(90, 90)\<close> and radius
  80, give eight pairwise distinct path strings, and each of them holds exactly one
  cubic-curve command that begins and ends at the centre coordinates.
\<close>

theorem main_paths_distinct_single_cubic:
  assumes "numeric_repr float_str" "separates_canvas float_str"
  shows "main_paths float_str =
           map (\<lambda>j. make_petal_path float_str 90 90 80 (45 * real j)) [0..<8] \<and>
         length (main_paths float_str) = 8 \<and>
         distinct (main_paths float_str) \<and>
         (\<forall>p \<in> set (main_paths float_str).
            count_list p CHR ''C'' = 1 \<and>
            prefix (''M '' @ float_str 90 @ '' '' @ float_str 90 @ '' C '') p \<and>
            suffix ('' '' @ float_str 90 @ '' '' @ float_str 90) p)"
proof -
  have each: "count_list p CHR ''C'' = 1 \<and>
              prefix (''M '' @ float_str 90 @ '' '' @ float_str 90 @ '' C '') p \<and>
              suffix ('' '' @ float_str 90 @ '' '' @ float_str 90) p"
    if "p \<in> set (main_paths float_str)" for p
  proof -
    from that obtain j where p: "p = make_petal_path float_str 90 90 80 (45 * real j)"
      unfolding main_paths_eq by auto
    have "count_list p CHR ''C'' = 1"
      unfolding p make_petal_path_unfold by (simp add: numeric_repr_count [OF assms(1)])
    then show ?thesis
      unfolding p using make_petal_path_prefix make_petal_path_suffix by blast
  qed
  show ?thesis
    using main_paths_eq main_paths_length main_paths_distinct [OF assms] each by blast
qed

theorem main_paths_distinct_single_cubic_witness:
  "numeric_repr decimal1_str \<and> separates_canvas decimal1_str \<and>
   length (main_paths decimal1_str) = 8 \<and>
   distinct (main_paths decimal1_str) \<and>
   count_list (main_paths decimal1_str ! 5) CHR ''C'' = 1 \<and>
   prefix ''M 90.0 90.0 C '' (main_paths decimal1_str ! 5) \<and>
   suffix '' 90.0 90.0'' (main_paths decimal1_str ! 5)"
proof -
  note t = main_paths_distinct_single_cubic [OF decimal1_numeric decimal1_separates]
  have m: "main_paths decimal1_str ! 5 \<in> set (main_paths decimal1_str)"
    by (rule nth_mem) (simp add: main_paths_length)
  from t have d: "length (main_paths decimal1_str) = 8" "distinct (main_paths decimal1_str)"
    by blast+
  from t m have c: "count_list (main_paths decimal1_str ! 5) CHR ''C'' = 1 \<and>
      prefix (''M '' @ decimal1_str 90 @ '' '' @ decimal1_str 90 @ '' C '')
        (main_paths decimal1_str ! 5) \<and>
      suffix ('' '' @ decimal1_str 90 @ '' '' @ decimal1_str 90) (main_paths decimal1_str ! 5)"
    by blast
  show ?thesis
    using decimal1_numeric decimal1_separates d c by (simp add: decimal1_str_90)
qed

subsection \<open>The markup\<close>
















subsection \<open>The driver's output and failure handling\<close>

lemma dirname_OUTPUT_PATH: "dirname OUTPUT_PATH = ''public''"
  by (simp add: dirname_def OUTPUT_PATH_def)

lemma svg_path_value: "str_replace ''.png'' ''.svg'' OUTPUT_PATH = ''public/apple-touch-icon.svg''"
  by (simp add: OUTPUT_PATH_def)

lemma try_rasterize_cases:
  "try_rasterize e svg =
     (if import_cairosvg_raises e \<noteq> None then ([], import_cairosvg_raises e)
      else if svg2png_raises e \<noteq> None then ([], svg2png_raises e)
      else ([Svg2Png svg ''public/apple-touch-icon.png'' 180 180,
             Print ''Wrote public/apple-touch-icon.png''], None))"
  by (cases "import_cairosvg_raises e"; cases "svg2png_raises e")
     (simp_all add: try_rasterize_def OUTPUT_PATH_def SIZE_def)

lemma write_svg_fallback_cases:
  "write_svg_fallback e svg =
     (if write_raises e \<noteq> None then ([], write_raises e)
      else ([WriteFile ''public/apple-touch-icon.svg'' svg,
             Print ''Wrote public/apple-touch-icon.svg (cairosvg not installed; run: pip install cairosvg, then re-run to get PNG)'',
             Print ''Or convert manually: cairosvg -o public/apple-touch-icon.png -W 180 -H 180 public/apple-touch-icon.svg''],
            None))"
  by (cases "write_raises e") (simp_all add: write_svg_fallback_def svg_path_value Let_def)

lemma main_cases:
  "main float_str e =
     (case makedirs_raises e of
        Some x \<Rightarrow> ([], Some x)
      | None \<Rightarrow>
          (case import_cairosvg_raises e of
             Some (OtherError n) \<Rightarrow> ([Makedirs ''public''], Some (OtherError n))
           | Some ImportError \<Rightarrow>
               (case write_svg_fallback e (main_svg float_str) of
                  (t', r) \<Rightarrow> (Makedirs ''public'' # t', r))
           | None \<Rightarrow>
               (case svg2png_raises e of
                  Some (OtherError n) \<Rightarrow> ([Makedirs ''public''], Some (OtherError n))
                | Some ImportError \<Rightarrow>
                    (case write_svg_fallback e (main_svg float_str) of
                       (t', r) \<Rightarrow> (Makedirs ''public'' # t', r))
                | None \<Rightarrow>
                    ([Makedirs ''public'',
                      Svg2Png (main_svg float_str) ''public/apple-touch-icon.png'' 180 180,
                      Print ''Wrote public/apple-touch-icon.png''], None))))"
  by (simp add: main_def Let_def try_rasterize_cases dirname_OUTPUT_PATH
      split: option.splits exn.splits prod.splits)

text \<open>
  C8, as amended. The one failure the driver handles is an \<open>ImportError\<close> raised by the
  import of the rasterizer: then the markup is written verbatim to
  \<open>public/apple-touch-icon.svg\<close>, the two notice lines are printed and the run completes
  normally, as it does when the import and the rasterization succeed. An import that
  fails with any other exception, and every other exception of the directory creation,
  of the rasterization call and of the write, ends the run unhandled. Runs in which the
  rasterization call itself raises \<open>ImportError\<close> are left out of the statement.
\<close>

theorem main_import_error_fallback:
  assumes "svg2png_raises e \<noteq> Some ImportError"
  shows
  "(makedirs_raises e = None \<and> import_cairosvg_raises e = Some ImportError \<and>
      write_raises e = None \<longrightarrow>
      main float_str e =
        ([Makedirs ''public'',
          WriteFile ''public/apple-touch-icon.svg'' (main_svg float_str),
          Print ''Wrote public/apple-touch-icon.svg (cairosvg not installed; run: pip install cairosvg, then re-run to get PNG)'',
          Print ''Or convert manually: cairosvg -o public/apple-touch-icon.png -W 180 -H 180 public/apple-touch-icon.svg''],
         None)) \<and>
   (makedirs_raises e = None \<and> import_cairosvg_raises e = None \<and> svg2png_raises e = None \<longrightarrow>
      main float_str e =
        ([Makedirs ''public'',
          Svg2Png (main_svg float_str) ''public/apple-touch-icon.png'' 180 180,
          Print ''Wrote public/apple-touch-icon.png''],
         None)) \<and>
   (\<forall>x. makedirs_raises e = Some x \<longrightarrow> main float_str e = ([], Some x)) \<and>
   (\<forall>n. makedirs_raises e = None \<and> import_cairosvg_raises e = Some (OtherError n) \<longrightarrow>
      main float_str e = ([Makedirs ''public''], Some (OtherError n))) \<and>
   (\<forall>x. makedirs_raises e = None \<and> import_cairosvg_raises e = None \<and>
      svg2png_raises e = Some x \<longrightarrow>
      main float_str e = ([Makedirs ''public''], Some x)) \<and>
   (\<forall>x. makedirs_raises e = None \<and> import_cairosvg_raises e = Some ImportError \<and>
      write_raises e = Some x \<longrightarrow>
      main float_str e = ([Makedirs ''public''], Some x)) \<and>
   ((\<exists>path content. WriteFile path content \<in> set (fst (main float_str e))) \<longleftrightarrow>
      makedirs_raises e = None \<and> import_cairosvg_raises e = Some ImportError \<and>
      write_raises e = None) \<and>
   (snd (main float_str e) = None \<longleftrightarrow>
      makedirs_raises e = None \<and>
      (import_cairosvg_raises e = None \<and> svg2png_raises e = None \<or>
       import_cairosvg_raises e = Some ImportError \<and> write_raises e = None))"
  using assms unfolding main_cases write_svg_fallback_cases
  by (cases "makedirs_raises e"; cases "import_cairosvg_raises e"; cases "svg2png_raises e";
      cases "write_raises e")
     (auto split: exn.splits)

theorem main_import_error_fallback_witness:
  "svg2png_raises \<lparr>makedirs_raises = None, import_cairosvg_raises = Some ImportError,
       svg2png_raises = None, write_raises = None\<rparr> \<noteq> Some ImportError \<and>
   main decimal1_str
         \<lparr>makedirs_raises = None, import_cairosvg_raises = Some ImportError,
          svg2png_raises = None, write_raises = None\<rparr> =
     ([Makedirs ''public'',
       WriteFile ''public/apple-touch-icon.svg'' (main_svg decimal1_str),
       Print ''Wrote public/apple-touch-icon.svg (cairosvg not installed; run: pip install cairosvg, then re-run to get PNG)'',
       Print ''Or convert manually: cairosvg -o public/apple-touch-icon.png -W 180 -H 180 public/apple-touch-icon.svg''],
      None) \<and>
   main decimal1_str
         \<lparr>makedirs_raises = None, import_cairosvg_raises = None,
          svg2png_raises = None, write_raises = None\<rparr> =
     ([Makedirs ''public'',
       Svg2Png (main_svg decimal1_str) ''public/apple-touch-icon.png'' 180 180,
       Print ''Wrote public/apple-touch-icon.png''], None) \<and>
   main decimal1_str
         \<lparr>makedirs_raises = None, import_cairosvg_raises = Some (OtherError ''OSError''),
          svg2png_raises = None, write_raises = None\<rparr> =
     ([Makedirs ''public''], Some (OtherError ''OSError'')) \<and>
   main decimal1_str
         \<lparr>makedirs_raises = None, import_cairosvg_raises = Some ImportError,
          svg2png_raises = None, write_raises = Some (OtherError ''PermissionError'')\<rparr> =
     ([Makedirs ''public''], Some (OtherError ''PermissionError''))"
  using main_import_error_fallback [of "\<lparr>makedirs_raises = None,
            import_cairosvg_raises = Some ImportError, svg2png_raises = None,
            write_raises = None\<rparr>" decimal1_str]
        main_import_error_fallback [of "\<lparr>makedirs_raises = None,
            import_cairosvg_raises = None, svg2png_raises = None,
            write_raises = None\<rparr>" decimal1_str]
        main_import_error_fallback [of "\<lparr>makedirs_raises = None,
            import_cairosvg_raises = Some (OtherError ''OSError''), svg2png_raises = None,
            write_raises = None\<rparr>" decimal1_str]
        main_import_error_fallback [of "\<lparr>makedirs_raises = None,
            import_cairosvg_raises = Some ImportError, svg2png_raises = None,
            write_raises = Some (OtherError ''PermissionError'')\<rparr>" decimal1_str]
  by simp

text \<open>
  The claim as first stated has the fallback whenever the import of the rasterizer
  fails. Where the import fails with an exception that is not an \<open>ImportError\<close>, as an
  \<open>OSError\<close> of a missing shared library, the \<open>except ImportError\<close> clause does not
  apply: no file is written and the run ends with that exception.
\<close>

theorem fallback_iff_import_fails_counterexample:
  "\<not> ((WriteFile ''public/apple-touch-icon.svg'' (main_svg decimal1_str)
          \<in> set (fst (main decimal1_str
              \<lparr>makedirs_raises = None, import_cairosvg_raises = Some (OtherError ''OSError''),
               svg2png_raises = None, write_raises = None\<rparr>)) \<and>
        snd (main decimal1_str
              \<lparr>makedirs_raises = None, import_cairosvg_raises = Some (OtherError ''OSError''),
               svg2png_raises = None, write_raises = None\<rparr>) = None)
      \<longleftrightarrow>
      import_cairosvg_raises
        \<lparr>makedirs_raises = None, import_cairosvg_raises = Some (OtherError ''OSError''),
         svg2png_raises = None, write_raises = None\<rparr> \<noteq> None)"
  by (simp add: main_cases)

end
